theory Spec2Isabelle
  imports Complex_Main
begin

section \<open>Greedy rule list classifier (imodels/greedy_rule_list.py)\<close>

text \<open>
  A shallow embedding of \<^verbatim>\<open>GreedyRuleListClassifier\<close>. Conventions:
  \<^item> a float64 is an exact real, or one of the three special values NaN, +inf and -inf
    that numpy produces on a division by zero and on the mean of an empty slice
    (rounding and overflow are not modelled);
  \<^item> a raised Python exception is \<open>Inl\<close> of an \<open>error\<close>;
  \<^item> the instance (\<^verbatim>\<open>self\<close>) is a record that every method receives, and that
    \<^verbatim>\<open>fit\<close> returns updated;
  \<^item> a 2-D array is its list of rows together with \<^verbatim>\<open>shape[1]\<close>, the length of
    every row;
  \<^item> the order in which Python iterates over \<^verbatim>\<open>set(col)\<close> is a parameter \<open>so\<close>
    (a function from the column to the list of its distinct values).
\<close>

subsection \<open>Floats\<close>

datatype fl = NaN | NInf | Fin real | PInf

text \<open>Comparison \<^verbatim>\<open><=\<close>: false as soon as one side is NaN.\<close>

fun fl_le :: "fl \<Rightarrow> fl \<Rightarrow> bool" where
  "fl_le NaN _ = False"
| "fl_le _ NaN = False"
| "fl_le NInf _ = True"
| "fl_le _ PInf = True"
| "fl_le (Fin a) (Fin b) = (a \<le> b)"
| "fl_le (Fin a) NInf = False"
| "fl_le PInf _ = False"

text \<open>Comparison \<^verbatim>\<open>>\<close>, also false on NaN.\<close>

fun fl_gt :: "fl \<Rightarrow> fl \<Rightarrow> bool" where
  "fl_gt NaN _ = False"
| "fl_gt _ NaN = False"
| "fl_gt a b = (\<not> fl_le a b)"

text \<open>Comparison \<^verbatim>\<open>>=\<close>.\<close>

definition fl_ge :: "fl \<Rightarrow> fl \<Rightarrow> bool" where
  "fl_ge a b = fl_le b a"

text \<open>The sign of a float that is not NaN, for the product with an infinity.\<close>

fun fl_sgn :: "fl \<Rightarrow> int" where
  "fl_sgn NaN = 0"
| "fl_sgn NInf = - 1"
| "fl_sgn PInf = 1"
| "fl_sgn (Fin r) = (if r < 0 then - 1 else if r = 0 then 0 else 1)"

definition fl_of_sgn :: "int \<Rightarrow> fl" where
  "fl_of_sgn k = (if k < 0 then NInf else if k = 0 then NaN else PInf)"

fun fl_mul :: "fl \<Rightarrow> fl \<Rightarrow> fl" where
  "fl_mul NaN _ = NaN"
| "fl_mul _ NaN = NaN"
| "fl_mul (Fin a) (Fin b) = Fin (a * b)"
| "fl_mul a b = fl_of_sgn (fl_sgn a * fl_sgn b)"

fun fl_add :: "fl \<Rightarrow> fl \<Rightarrow> fl" where
  "fl_add NaN _ = NaN"
| "fl_add _ NaN = NaN"
| "fl_add (Fin a) (Fin b) = Fin (a + b)"
| "fl_add PInf NInf = NaN"
| "fl_add NInf PInf = NaN"
| "fl_add PInf _ = PInf"
| "fl_add NInf _ = NInf"
| "fl_add _ b = b"

fun fl_neg :: "fl \<Rightarrow> fl" where
  "fl_neg NaN = NaN"
| "fl_neg NInf = PInf"
| "fl_neg PInf = NInf"
| "fl_neg (Fin a) = Fin (- a)"

definition fl_sub :: "fl \<Rightarrow> fl \<Rightarrow> fl" where
  "fl_sub a b = fl_add a (fl_neg b)"

text \<open>The quotient of two finite floats: 0/0 is NaN, x/0 is an infinity of the sign of x.\<close>

definition fl_div :: "real \<Rightarrow> real \<Rightarrow> fl" where
  "fl_div a b = (if b = 0 then fl_of_sgn (fl_sgn (Fin a)) else Fin (a / b))"

text \<open>\<^verbatim>\<open>np.mean\<close> of a 1-D array: NaN on the empty array.\<close>

definition mean :: "real list \<Rightarrow> fl" where
  "mean y = fl_div (sum_list y) (real (length y))"

subsection \<open>Errors, rule nodes, arrays and the instance\<close>

datatype error = AttributeError | IndexError | KeyError | TypeError | UnboundLocalError

text \<open>
  A rule is a dict. The leaf of base case 2 has the keys \<^verbatim>\<open>val\<close> and \<^verbatim>\<open>num_pts\<close>;
  the node of a split has all eight keys.
\<close>

datatype rule =
    Leaf (val: fl) (num_pts: nat)
  | Split (col: string) (index_col: nat) (cutoff: real) (val: fl) (flip: bool)
      (val_right: fl) (num_pts: nat) (num_pts_right: nat)

record matrix =
  rows :: "real list list"
  shape1 :: nat

text \<open>
  The attributes of \<^verbatim>\<open>self\<close>. \<open>rules\<close> is the attribute \<^verbatim>\<open>rules_\<close>: \<open>None\<close> as long as it has never
  been assigned (the constructor does not create it). \<open>class_weight\<close> is \<open>None\<close> or a dict
  from labels to weights.
\<close>

record classifier =
  depth :: int
  max_depth :: int
  feature_names :: "string list option"
  class_weight :: "(real \<rightharpoonup> real) option"
  criterion :: string
  rules :: "rule list option"

text \<open>\<^verbatim>\<open>__init__\<close>\<close>

definition init :: "int \<Rightarrow> (real \<rightharpoonup> real) option \<Rightarrow> string \<Rightarrow> classifier" where
  "init md cw cr =
     \<lparr>depth = 0, max_depth = md, feature_names = None, class_weight = cw,
      criterion = cr, rules = None\<rparr>"

subsection \<open>Inference\<close>

text \<open>
  The inner loop of \<^verbatim>\<open>predict_proba\<close> for one row \<open>x\<close>; \<open>p\<close> is \<^verbatim>\<open>probs[i]\<close>.
  The last rule assigns its \<^verbatim>\<open>val\<close>; an earlier rule reads \<^verbatim>\<open>rule['index_col']\<close>
  (KeyError on a leaf) and \<^verbatim>\<open>x[rule['index_col']]\<close> (IndexError out of range), and when
  the test succeeds assigns \<^verbatim>\<open>rule['val']\<close> and breaks.
\<close>

fun predict_row :: "rule list \<Rightarrow> real list \<Rightarrow> fl \<Rightarrow> error + fl" where
  "predict_row [] x p = Inr p"
| "predict_row [rule] x p = Inr (val rule)"
| "predict_row (Leaf v n # rest) x p = Inl KeyError"
| "predict_row (Split c ic cu v f vr n nr # rest) x p =
     (if length x \<le> ic then Inl IndexError
      else if x ! ic \<ge> cu then Inr v
      else predict_row rest x p)"

text \<open>The outer loop over the rows; \<^verbatim>\<open>self.rules_\<close> is read once per row.\<close>

fun predict_rows :: "classifier \<Rightarrow> real list list \<Rightarrow> error + fl list" where
  "predict_rows s [] = Inr []"
| "predict_rows s (x # xs) =
     (case rules s of
        None \<Rightarrow> Inl AttributeError
      | Some rs \<Rightarrow>
          (case predict_row rs x (Fin 0) of
             Inl e \<Rightarrow> Inl e
           | Inr p \<Rightarrow>
               (case predict_rows s xs of
                  Inl e \<Rightarrow> Inl e
                | Inr ps \<Rightarrow> Inr (p # ps))))"

definition predict_proba :: "classifier \<Rightarrow> matrix \<Rightarrow> error + (fl \<times> fl) list" where
  "predict_proba s X =
     (case predict_rows s (rows X) of
        Inl e \<Rightarrow> Inl e
      | Inr probs \<Rightarrow> Inr (map (\<lambda>p. (fl_sub (Fin 1) p, p)) probs))"

text \<open>\<^verbatim>\<open>(proba > 0.5).argmax(axis=1)\<close>: the first index holding the largest boolean.\<close>

definition argmax_gt_half :: "fl \<times> fl \<Rightarrow> nat" where
  "argmax_gt_half pr =
     (if fl_gt (fst pr) (Fin (1/2)) then 0 else if fl_gt (snd pr) (Fin (1/2)) then 1 else 0)"

definition predict :: "classifier \<Rightarrow> matrix \<Rightarrow> error + nat list" where
  "predict s X =
     (case predict_proba s X of
        Inl e \<Rightarrow> Inl e
      | Inr pr \<Rightarrow> Inr (map argmax_gt_half pr))"

subsection \<open>Impurity engine\<close>

text \<open>\<^verbatim>\<open>a[mask]\<close> for a boolean mask of the length of \<open>a\<close>.\<close>

definition mask_select :: "'a list \<Rightarrow> bool list \<Rightarrow> 'a list" where
  "mask_select a m = map fst (filter snd (zip a m))"

text \<open>
  \<^verbatim>\<open>a[mask]\<close> in general: numpy raises IndexError when the lengths differ, except for a
  mask of length 0, which it accepts on every array and which selects nothing.
\<close>

definition mask_index :: "'a list \<Rightarrow> bool list \<Rightarrow> error + 'a list" where
  "mask_index a m =
     (if m \<noteq> [] \<and> length m \<noteq> length a then Inl IndexError else Inr (mask_select a m))"

text \<open>\<^verbatim>\<open>sum(y == c)\<close>\<close>

definition n_eq :: "real list \<Rightarrow> real \<Rightarrow> nat" where
  "n_eq y c = length (filter (\<lambda>v. v = c) y)"

text \<open>
  \<^verbatim>\<open>gini_criterion\<close>. The loop runs over \<^verbatim>\<open>set(y)\<close>; a sum of exact reals does not
  depend on the order, so the classes are taken in the order of \<open>remdups\<close>.
\<close>

definition gini_criterion :: "real list \<Rightarrow> real" where
  "gini_criterion y =
     (let n = real (length y)
      in sum_list (map (\<lambda>c. let p_c = real (n_eq y c) / n in p_c * (1 - p_c)) (remdups y)))"

definition entropy_func :: "real \<Rightarrow> real" where
  "entropy_func p = - p * log 2 p"

definition entropy_from_counts :: "nat \<Rightarrow> nat \<Rightarrow> real" where
  "entropy_from_counts c1 c2 =
     (if c1 = 0 \<or> c2 = 0 then 0
      else let p1 = real c1 * 1 / real (c1 + c2); p2 = real c2 * 1 / real (c1 + c2)
           in entropy_func p1 + entropy_func p2)"

definition entropy_criterion :: "real list \<Rightarrow> real" where
  "entropy_criterion y =
     (let n = real (length y)
      in sum_list (map (\<lambda>c. let weight = real (n_eq y c) / n
                            in weight * entropy_from_counts (n_eq y c) (length y - n_eq y c))
                       (remdups y)))"

text \<open>
  \<^verbatim>\<open>np.cov\<close> of two 1-D arrays of one length (normalised by \<open>n - 1\<close>) and the entry
  \<^verbatim>\<open>[0, 1]\<close> of \<^verbatim>\<open>np.corrcoef\<close>, as numpy computes them: the covariance divided by both
  standard deviations, NaN when one of them is zero, clipped to [-1, 1].
\<close>

definition cov :: "real list \<Rightarrow> real list \<Rightarrow> real" where
  "cov xs ys =
     (let n = real (length xs); mx = sum_list xs / n; my = sum_list ys / n
      in sum_list (map (\<lambda>(a, b). (a - mx) * (b - my)) (zip xs ys)) / (n - 1))"

definition corrcoef01 :: "real list \<Rightarrow> real list \<Rightarrow> fl" where
  "corrcoef01 xs ys =
     (if length xs \<le> 1 then NaN
      else if cov xs xs = 0 \<or> cov ys ys = 0 then NaN
      else Fin (max (- 1) (min 1 (cov xs ys / sqrt (cov xs xs) / sqrt (cov ys ys)))))"

text \<open>\<^verbatim>\<open>neg_corr_criterion\<close> (\<^verbatim>\<open>np.int\<close> is the builtin \<^verbatim>\<open>int\<close>; the message on
  more than two classes is only printed).\<close>

definition neg_corr_criterion :: "bool list \<Rightarrow> real list \<Rightarrow> fl" where
  "neg_corr_criterion split_decision y =
     (if length (remdups y) < 2 then Fin 0
      else let y' = (if sum_list y < real (length y) / 2 then map (\<lambda>v. 1 - v) y else y)
           in fl_mul (Fin (- 1))
                (corrcoef01 (map (\<lambda>b. if b then 1 else 0) split_decision) y'))"

text \<open>The entry of \<^verbatim>\<open>sample_weights\<close> for a row of label \<open>v\<close>.\<close>

definition sample_weight :: "classifier \<Rightarrow> real \<Rightarrow> real" where
  "sample_weight s v =
     (case class_weight s of
        None \<Rightarrow> 1
      | Some cw \<Rightarrow> (case cw v of None \<Rightarrow> 1 | Some w \<Rightarrow> w))"

text \<open>Lines 236 to 253 of \<^verbatim>\<open>weighted_criterion\<close>, for the chosen \<^verbatim>\<open>criterion_func\<close>.\<close>

definition weighted_average :: "classifier \<Rightarrow> (real list \<Rightarrow> real) \<Rightarrow> bool list \<Rightarrow> real list \<Rightarrow> fl" where
  "weighted_average s criterion_func split_decision y_real =
     (let s_left = criterion_func (mask_select y_real split_decision);
          s_right = criterion_func (mask_select y_real (map Not split_decision));
          sample_weights = map (sample_weight s) y_real;
          tot_weight = sum_list sample_weights;
          weight_left = fl_div (sum_list (mask_select sample_weights split_decision)) tot_weight;
          weight_right =
            fl_div (sum_list (mask_select sample_weights (map Not split_decision))) tot_weight
      in fl_add (fl_mul weight_left (Fin s_left)) (fl_mul weight_right (Fin s_right)))"

text \<open>
  \<^verbatim>\<open>weighted_criterion\<close>. On arrays of different lengths it prints a message and returns
  Python's \<^verbatim>\<open>None\<close> (\<open>Inr None\<close>). With a criterion name that is none of the three,
  \<^verbatim>\<open>criterion_func\<close> is never bound and its first use raises UnboundLocalError.
\<close>

definition weighted_criterion :: "classifier \<Rightarrow> bool list \<Rightarrow> real list \<Rightarrow> error + fl option" where
  "weighted_criterion s split_decision y_real =
     (if length split_decision \<noteq> length y_real then Inr None
      else if criterion s = ''entropy''
        then Inr (Some (weighted_average s entropy_criterion split_decision y_real))
      else if criterion s = ''gini''
        then Inr (Some (weighted_average s gini_criterion split_decision y_real))
      else if criterion s = ''neg_corr''
        then Inr (Some (neg_corr_criterion split_decision y_real))
      else Inl UnboundLocalError)"

subsection \<open>Split selector\<close>

text \<open>
  The loop of \<^verbatim>\<open>split_on_feature\<close> over the remaining values of \<^verbatim>\<open>set(col)\<close>, with
  \<^verbatim>\<open>(min_criterion_val, cutoff)\<close> as accumulator. Comparing \<^verbatim>\<open>None\<close> with a float
  raises TypeError.
\<close>

fun split_on_feature_loop ::
  "classifier \<Rightarrow> real list \<Rightarrow> real list \<Rightarrow> real list \<Rightarrow> fl \<times> real \<Rightarrow> error + (fl \<times> real)" where
  "split_on_feature_loop s [] c y acc = Inr acc"
| "split_on_feature_loop s (value # vs) c y (min_criterion_val, cu) =
     (case weighted_criterion s (map (\<lambda>v. v < value) c) y of
        Inl e \<Rightarrow> Inl e
      | Inr None \<Rightarrow> Inl TypeError
      | Inr (Some criterion_val) \<Rightarrow>
          (if fl_le criterion_val min_criterion_val
           then split_on_feature_loop s vs c y (criterion_val, value)
           else split_on_feature_loop s vs c y (min_criterion_val, cu)))"

definition split_on_feature ::
  "(real list \<Rightarrow> real list) \<Rightarrow> classifier \<Rightarrow> real list \<Rightarrow> real list \<Rightarrow> error + (fl \<times> real)" where
  "split_on_feature so s c y = split_on_feature_loop s (so c) c y (Fin 10000000000, 1/2)"

text \<open>\<^verbatim>\<open>x.T\<close>: the columns of a 2-D array, left to right.\<close>

definition columns :: "matrix \<Rightarrow> real list list" where
  "columns x = map (\<lambda>i. map (\<lambda>r. r ! i) (rows x)) [0..<shape1 x]"

text \<open>
  The loop of \<^verbatim>\<open>find_best_split\<close> over the remaining columns; \<open>i\<close> is the index of the
  next one and the accumulator is \<^verbatim>\<open>(col, cutoff, min_criterion_val)\<close>.
\<close>

fun find_best_split_loop ::
  "(real list \<Rightarrow> real list) \<Rightarrow> classifier \<Rightarrow> real list list \<Rightarrow> real list \<Rightarrow> nat \<Rightarrow>
   nat option \<times> real option \<times> fl \<Rightarrow> error + (nat option \<times> real option \<times> fl)" where
  "find_best_split_loop so s [] y i acc = Inr acc"
| "find_best_split_loop so s (c # cs) y i (bcol, bcu, min_criterion_val) =
     (case split_on_feature so s c y of
        Inl e \<Rightarrow> Inl e
      | Inr (criterion_val, cur_cutoff) \<Rightarrow>
          (if criterion_val = Fin 0 then Inr (Some i, Some cur_cutoff, criterion_val)
           else if fl_le criterion_val min_criterion_val
           then find_best_split_loop so s cs y (Suc i) (Some i, Some cur_cutoff, criterion_val)
           else find_best_split_loop so s cs y (Suc i) (bcol, bcu, min_criterion_val)))"

definition find_best_split ::
  "(real list \<Rightarrow> real list) \<Rightarrow> classifier \<Rightarrow> matrix \<Rightarrow> real list \<Rightarrow>
   error + (nat option \<times> real option \<times> fl)" where
  "find_best_split so s x y =
     find_best_split_loop so s (columns x) y 0 (None, None, Fin 10000000000)"

subsection \<open>Rule-list builder\<close>

definition all_same :: "real list \<Rightarrow> bool" where
  "all_same items = list_all (\<lambda>v. v = items ! 0) items"

text \<open>\<^verbatim>\<open>str(i)\<close> for a natural number.\<close>

fun str_nat :: "nat \<Rightarrow> string" where
  "str_nat n =
     (if n < 10 then [''0123456789'' ! n]
      else str_nat (n div 10) @ [''0123456789'' ! (n mod 10)])"

text \<open>Lines 49 to 58 of \<^verbatim>\<open>fit\<close>, for plain arrays: the assignments to
  \<^verbatim>\<open>self.feature_names\<close>.\<close>

definition set_feature_names :: "classifier \<Rightarrow> matrix \<Rightarrow> string list option \<Rightarrow> classifier" where
  "set_feature_names s x fnames =
     (let s1 = (if feature_names s = None
                then s\<lparr>feature_names := Some (map (\<lambda>i. ''feat '' @ str_nat i) [0..<shape1 x])\<rparr>
                else s)
      in case fnames of None \<Rightarrow> s1 | Some f \<Rightarrow> s1\<lparr>feature_names := Some f\<rparr>)"

text \<open>
  \<^verbatim>\<open>fit\<close>, with \<open>d\<close> for the parameter \<^verbatim>\<open>depth\<close>; \<^verbatim>\<open>verbose\<close>, which only
  prints, is left out. It returns the node list or the exception, and the instance as the
  call leaves it. Without a column
  \<^verbatim>\<open>find_best_split\<close> returns \<^verbatim>\<open>col = None\<close>, and indexing \<^verbatim>\<open>y\<close> with the
  comparison of \<^verbatim>\<open>x[:, None]\<close> raises IndexError.
\<close>

function fit ::
  "(real list \<Rightarrow> real list) \<Rightarrow> classifier \<Rightarrow> matrix \<Rightarrow> real list \<Rightarrow> int \<Rightarrow>
   string list option \<Rightarrow> (error + rule list) \<times> classifier" where
  "fit so s x y d fnames =
     (let s2 = set_feature_names s x fnames
      in if length y = 0 then (Inr [], s2)
         else if all_same y then (Inr [Leaf (Fin (y ! 0)) (length y)], s2)
         else if d \<ge> max_depth s2 then (Inr [], s2)
         else
           (case find_best_split so s2 x y of
              Inl e \<Rightarrow> (Inl e, s2)
            | Inr (None, _, _) \<Rightarrow> (Inl IndexError, s2)
            | Inr (Some c, None, _) \<Rightarrow> (Inl TypeError, s2)
            | Inr (Some c, Some cu, criterion_val) \<Rightarrow>
                (let xc = map (\<lambda>r. r ! c) (rows x);
                     lt = map (\<lambda>v. v < cu) xc;
                     ge = map (\<lambda>v. v \<ge> cu) xc
                 in case mask_index y lt of
                      Inl e \<Rightarrow> (Inl e, s2)
                    | Inr y_left0 \<Rightarrow>
                        (case mask_index y ge of
                           Inl e \<Rightarrow> (Inl e, s2)
                         | Inr y_right0 \<Rightarrow>
                             (let flp = fl_gt (mean y_left0) (mean y_right0);
                                  y_left = (if flp then y_right0 else y_left0);
                                  y_right = (if flp then y_left0 else y_right0);
                                  x_left = x\<lparr>rows := mask_select (rows x) (if flp then ge else lt)\<rparr>
                              in case feature_names s2 of
                                   None \<Rightarrow> (Inl TypeError, s2)
                                 | Some names \<Rightarrow>
                                     if length names \<le> c then (Inl IndexError, s2)
                                     else
                                       (let node = Split (names ! c) c cu (mean y) flp
                                                     (mean y_right) (length y) (length y_right)
                                        in case fit so s2 x_left y_left (d + 1) None of
                                             (Inl e, s3) \<Rightarrow> (Inl e, s3)
                                           | (Inr rest, s3) \<Rightarrow>
                                               (Inr (node # rest),
                                                s3\<lparr>depth := depth s3 + 1,
                                                   rules := Some (node # rest)\<rparr>)))))))"
  by pat_completeness auto
termination
  by (relation "measure (\<lambda>(so, s, x, y, d, fnames). nat (max_depth s - d))")
    (auto simp: set_feature_names_def Let_def split: option.splits)

declare fit.simps [simp del]

text \<open>
  What is assumed of the iteration over \<^verbatim>\<open>set(col)\<close>: it yields every distinct value
  of the column exactly once, in some order.
\<close>

definition set_order_ok :: "(real list \<Rightarrow> real list) \<Rightarrow> bool" where
  "set_order_ok so = (\<forall>c. set (so c) = set c \<and> distinct (so c))"

text \<open>
  Two instances are configured alike when they agree on the constructor's arguments.
\<close>

definition same_config :: "classifier \<Rightarrow> classifier \<Rightarrow> bool" where
  "same_config s s' =
     (max_depth s = max_depth s' \<and> class_weight s = class_weight s' \<and> criterion s = criterion s')"

text \<open>
  The invariant of a node that the normalisation of the two sides aims at: the mean on
  the right is at least the mean of the whole, unless no row went right.
\<close>

definition right_at_least_val :: "rule \<Rightarrow> bool" where
  "right_at_least_val r =
     (case r of
        Leaf v n \<Rightarrow> True
      | Split c ic cu v f vr n nr \<Rightarrow> nr = 0 \<or> fl_ge vr v)"

section \<open>Basic facts\<close>

lemma set_order_ok_remdups: "set_order_ok remdups"
  by (simp add: set_order_ok_def)

lemma max_depth_set_feature_names [simp]:
  "max_depth (set_feature_names s x fnames) = max_depth s"
  by (simp add: set_feature_names_def Let_def split: option.splits)

lemma criterion_set_feature_names [simp]:
  "criterion (set_feature_names s x fnames) = criterion s"
  by (simp add: set_feature_names_def Let_def split: option.splits)

lemma class_weight_set_feature_names [simp]:
  "class_weight (set_feature_names s x fnames) = class_weight s"
  by (simp add: set_feature_names_def Let_def split: option.splits)

lemma rules_set_feature_names [simp]: "rules (set_feature_names s x fnames) = rules s"
  by (simp add: set_feature_names_def Let_def split: option.splits)

lemma rules_init [simp]: "rules (init md cw cr) = None"
  by (simp add: init_def)

lemma max_depth_init [simp]: "max_depth (init md cw cr) = md"
  by (simp add: init_def)

lemma all_same_iff: "all_same y = (\<forall>v\<in>set y. v = y ! 0)"
  by (simp add: all_same_def list_all_iff)

lemma all_same_Nil [simp]: "all_same []"
  by (simp add: all_same_def)

lemma not_all_same_01: "\<not> all_same [0, 1]"
  by (simp add: all_same_def)

text \<open>The three base cases of fit.\<close>

lemma fit_base:
  "y = [] \<or> all_same y \<or> max_depth s \<le> d \<Longrightarrow>
   fit so s x y d fnames =
     (if y = [] then Inr [] else if all_same y then Inr [Leaf (Fin (y ! 0)) (length y)] else Inr [],
      set_feature_names s x fnames)"
  by (subst fit.simps) (auto simp: Let_def)

text \<open>Inference reads nothing of the instance but \<^verbatim>\<open>rules_\<close>, and only when there is a row.\<close>

lemma predict_rows_unfitted:
  "rules s = None \<Longrightarrow> X \<noteq> [] \<Longrightarrow> predict_rows s X = Inl AttributeError"
  by (cases X) simp_all

lemma predict_rows_cong: "rules s = rules s' \<Longrightarrow> predict_rows s X = predict_rows s' X"
  by (induction X) (simp_all split: option.splits sum.splits)

lemma predict_proba_unfitted:
  "rules s = None \<Longrightarrow> rows X \<noteq> [] \<Longrightarrow> predict_proba s X = Inl AttributeError"
  by (simp add: predict_proba_def predict_rows_unfitted)

lemma predict_unfitted:
  "rules s = None \<Longrightarrow> rows X \<noteq> [] \<Longrightarrow> predict s X = Inl AttributeError"
  by (simp add: predict_def predict_proba_unfitted)

lemma predict_proba_cong: "rules s = rules s' \<Longrightarrow> predict_proba s X = predict_proba s' X"
  by (simp add: predict_proba_def predict_rows_cong [of s s'])

lemma predict_cong: "rules s = rules s' \<Longrightarrow> predict s X = predict s' X"
  by (simp add: predict_def predict_proba_cong [of s s'])

lemma predict_proba_no_rows: "rows X = [] \<Longrightarrow> predict_proba s X = Inr []"
  by (simp add: predict_proba_def)

lemma predict_no_rows: "rows X = [] \<Longrightarrow> predict s X = Inr []"
  by (simp add: predict_def predict_proba_no_rows)

text \<open>A criterion name that is none of the three makes the first scoring raise.\<close>

lemma columns_Cons:
  "0 < shape1 x \<Longrightarrow> \<exists>cs. columns x = map (\<lambda>r. r ! 0) (rows x) # cs"
  by (simp add: columns_def upt_conv_Cons)

lemma weighted_criterion_unknown:
  "criterion s \<notin> {''gini'', ''entropy'', ''neg_corr''} \<Longrightarrow> length m = length y \<Longrightarrow>
   weighted_criterion s m y = Inl UnboundLocalError"
  by (simp add: weighted_criterion_def)

lemma split_on_feature_unknown:
  assumes "criterion s \<notin> {''gini'', ''entropy'', ''neg_corr''}"
    and "length c = length y" and "so c \<noteq> []"
  shows "split_on_feature so s c y = Inl UnboundLocalError"
proof -
  from assms(3) obtain v vs where "so c = v # vs" by (cases "so c") auto
  then show ?thesis
    using assms(1,2) by (simp add: split_on_feature_def weighted_criterion_unknown)
qed

lemma find_best_split_unknown:
  assumes "criterion s \<notin> {''gini'', ''entropy'', ''neg_corr''}"
    and "0 < shape1 x" and "length (rows x) = length y" and "y \<noteq> []" and "set_order_ok so"
  shows "find_best_split so s x y = Inl UnboundLocalError"
proof -
  from assms(2) obtain cs where cs: "columns x = map (\<lambda>r. r ! 0) (rows x) # cs"
    using columns_Cons by blast
  let ?c = "map (\<lambda>r. r ! 0) (rows x)"
  have "?c \<noteq> []" using assms(3,4) by auto
  then have "set (so ?c) \<noteq> {}" using assms(5) by (simp add: set_order_ok_def)
  then have "so ?c \<noteq> []" by auto
  then have "split_on_feature so s ?c y = Inl UnboundLocalError"
    using assms(1,3) by (simp add: split_on_feature_unknown)
  then show ?thesis by (simp add: find_best_split_def cs)
qed

text \<open>The order \<^verbatim>\<open><=\<close> on the floats that are not NaN, and the two scans.\<close>

lemma fl_le_trans: "fl_le a b \<Longrightarrow> fl_le b c \<Longrightarrow> fl_le a c"
  by (cases a; cases b; cases c) auto

lemma fl_le_total: "fl_le a a \<Longrightarrow> fl_le b b \<Longrightarrow> fl_le a b \<or> fl_le b a"
  by (cases a; cases b) auto

lemma fl_le_antisym: "fl_le a b \<Longrightarrow> fl_le b a \<Longrightarrow> a = b"
  by (cases a; cases b) auto

lemma fl_le_refl_left: "fl_le a b \<Longrightarrow> fl_le a a"
  by (cases a; cases b) auto

lemma fl_le_refl_right: "fl_le a b \<Longrightarrow> fl_le b b"
  by (cases a; cases b) auto

lemma split_on_feature_loop_le:
  "fl_le m m \<Longrightarrow> split_on_feature_loop s vs c y (m, cu) = Inr (v, cu') \<Longrightarrow> fl_le v m"
proof (induction vs arbitrary: m cu)
  case Nil
  then show ?case by simp
next
  case (Cons a vs)
  show ?case
  proof (cases "weighted_criterion s (map (\<lambda>v. v < a) c) y")
    case (Inl e)
    with Cons.prems show ?thesis by simp
  next
    case (Inr r)
    show ?thesis
    proof (cases r)
      case None
      with Inr Cons.prems show ?thesis by simp
    next
      case (Some cv)
      show ?thesis
      proof (cases "fl_le cv m")
        case True
        with Inr Some Cons.prems have "split_on_feature_loop s vs c y (cv, a) = Inr (v, cu')"
          by simp
        with Cons.IH [of cv a] True have "fl_le v cv" by (auto dest: fl_le_refl_left)
        then show ?thesis using True by (rule fl_le_trans)
      next
        case False
        with Inr Some Cons.prems have "split_on_feature_loop s vs c y (m, cu) = Inr (v, cu')"
          by simp
        with Cons.IH [of m cu] Cons.prems(1) show ?thesis by simp
      qed
    qed
  qed
qed

lemma split_on_feature_le:
  "split_on_feature so s c y = Inr (v, cu) \<Longrightarrow> fl_le v (Fin 10000000000)"
  unfolding split_on_feature_def by (rule split_on_feature_loop_le [rotated]) simp_all

lemma find_best_split_loop_zero:
  assumes "\<forall>p\<in>set pre. \<exists>v cu'. split_on_feature so s p y = Inr (v, cu') \<and> v \<noteq> Fin 0"
    and "split_on_feature so s c y = Inr (Fin 0, cu)"
  shows "find_best_split_loop so s (pre @ c # rest) y i acc = Inr (Some (i + length pre), Some cu, Fin 0)"
  using assms
proof (induction pre arbitrary: i acc)
  case Nil
  then show ?case by (cases acc) simp
next
  case (Cons p pre)
  from Cons.prems(1) obtain v cu' where p: "split_on_feature so s p y = Inr (v, cu')" "v \<noteq> Fin 0"
    by auto
  from Cons.prems have ih: "\<And>i acc. find_best_split_loop so s (pre @ c # rest) y i acc
      = Inr (Some (i + length pre), Some cu, Fin 0)"
    by (intro Cons.IH) auto
  obtain bc bcu m where acc: "acc = (bc, bcu, m)" by (cases acc) auto
  show ?case by (simp add: acc p ih)
qed

lemma find_best_split_loop_min:
  assumes "\<forall>j<length cs. \<exists>cu. split_on_feature so s (cs ! j) y = Inr (V j, cu) \<and> V j \<noteq> Fin 0"
    and "fl_le m m"
  shows "(find_best_split_loop so s cs y i (bc, bcu, m) = Inr (bc, bcu, m) \<and>
            (\<forall>j<length cs. \<not> fl_le (V j) m)) \<or>
         (\<exists>k<length cs. find_best_split_loop so s cs y i (bc, bcu, m)
              = Inr (Some (i + k), Some (snd (projr (split_on_feature so s (cs ! k) y))), V k) \<and>
            fl_le (V k) m \<and>
            (\<forall>j<length cs. fl_le (V k) (V j) \<and> (V j = V k \<longrightarrow> j \<le> k)))"
  using assms
proof (induction cs arbitrary: i bc bcu m V)
  case Nil
  then show ?case by simp
next
  case (Cons c cs)
  from Cons.prems(1) [rule_format, of 0]
  obtain cu0 where c: "split_on_feature so s c y = Inr (V 0, cu0)" "V 0 \<noteq> Fin 0" by auto
  have v0: "fl_le (V 0) (V 0)"
    using split_on_feature_le [OF c(1)] by (rule fl_le_refl_left)
  let ?W = "\<lambda>j. V (Suc j)"
  have tl: "\<forall>j<length cs. \<exists>cu. split_on_feature so s (cs ! j) y = Inr (?W j, cu) \<and> ?W j \<noteq> Fin 0"
    using Cons.prems(1) by auto
  have nn: "\<And>j. j < length cs \<Longrightarrow> fl_le (?W j) (?W j)"
    using tl split_on_feature_le fl_le_refl_left by blast
  show ?case
  proof (cases "fl_le (V 0) m")
    case True
    have step: "find_best_split_loop so s (c # cs) y i (bc, bcu, m)
        = find_best_split_loop so s cs y (Suc i) (Some i, Some cu0, V 0)"
      using c True by simp
    from Cons.IH [OF tl v0, of "Suc i" "Some i" "Some cu0"]
    show ?thesis
    proof (elim disjE conjE exE)
      assume a: "find_best_split_loop so s cs y (Suc i) (Some i, Some cu0, V 0)
                   = Inr (Some i, Some cu0, V 0)"
        and b: "\<forall>j<length cs. \<not> fl_le (?W j) (V 0)"
      have "\<forall>j<length (c # cs). fl_le (V 0) (V j) \<and> (V j = V 0 \<longrightarrow> j \<le> 0)"
      proof (intro allI impI)
        fix j assume j: "j < length (c # cs)"
        show "fl_le (V 0) (V j) \<and> (V j = V 0 \<longrightarrow> j \<le> 0)"
        proof (cases j)
          case 0
          then show ?thesis using v0 by simp
        next
          case (Suc j')
          with j have j': "j' < length cs" by simp
          with b have n: "\<not> fl_le (V j) (V 0)" using Suc by simp
          have "fl_le (V j) (V j)" using nn [OF j'] Suc by simp
          with v0 n have "fl_le (V 0) (V j)" using fl_le_total by blast
          moreover have "V j \<noteq> V 0" using n v0 by auto
          ultimately show ?thesis by simp
        qed
      qed
      then show ?thesis
        using step a c True by (intro disjI2 exI [of _ 0]) simp
    next
      fix k
      assume k: "k < length cs"
        and a: "find_best_split_loop so s cs y (Suc i) (Some i, Some cu0, V 0)
                  = Inr (Some (Suc i + k), Some (snd (projr (split_on_feature so s (cs ! k) y))), ?W k)"
        and le: "fl_le (?W k) (V 0)"
        and mn: "\<forall>j<length cs. fl_le (?W k) (?W j) \<and> (?W j = ?W k \<longrightarrow> j \<le> k)"
      have "\<forall>j<length (c # cs). fl_le (V (Suc k)) (V j) \<and> (V j = V (Suc k) \<longrightarrow> j \<le> Suc k)"
      proof (intro allI impI)
        fix j assume j: "j < length (c # cs)"
        show "fl_le (V (Suc k)) (V j) \<and> (V j = V (Suc k) \<longrightarrow> j \<le> Suc k)"
          using j le mn by (cases j) auto
      qed
      moreover have "fl_le (V (Suc k)) m" using le True by (rule fl_le_trans)
      ultimately show ?thesis
        using step a k by (intro disjI2 exI [of _ "Suc k"]) simp
    qed
  next
    case False
    have step: "find_best_split_loop so s (c # cs) y i (bc, bcu, m)
        = find_best_split_loop so s cs y (Suc i) (bc, bcu, m)"
      using c False by simp
    from Cons.IH [OF tl Cons.prems(2), of "Suc i" bc bcu]
    show ?thesis
    proof (elim disjE conjE exE)
      assume a: "find_best_split_loop so s cs y (Suc i) (bc, bcu, m) = Inr (bc, bcu, m)"
        and b: "\<forall>j<length cs. \<not> fl_le (?W j) m"
      have "\<forall>j<length (c # cs). \<not> fl_le (V j) m"
      proof (intro allI impI)
        fix j assume "j < length (c # cs)"
        then show "\<not> fl_le (V j) m" using False b by (cases j) auto
      qed
      then show ?thesis using step a by simp
    next
      fix k
      assume k: "k < length cs"
        and a: "find_best_split_loop so s cs y (Suc i) (bc, bcu, m)
                  = Inr (Some (Suc i + k), Some (snd (projr (split_on_feature so s (cs ! k) y))), ?W k)"
        and le: "fl_le (?W k) m"
        and mn: "\<forall>j<length cs. fl_le (?W k) (?W j) \<and> (?W j = ?W k \<longrightarrow> j \<le> k)"
      have m0: "fl_le m (V 0)" using False v0 Cons.prems(2) fl_le_total by blast
      have k0: "fl_le (V (Suc k)) (V 0)" using le m0 by (rule fl_le_trans)
      have "\<forall>j<length (c # cs). fl_le (V (Suc k)) (V j) \<and> (V j = V (Suc k) \<longrightarrow> j \<le> Suc k)"
      proof (intro allI impI)
        fix j assume j: "j < length (c # cs)"
        show "fl_le (V (Suc k)) (V j) \<and> (V j = V (Suc k) \<longrightarrow> j \<le> Suc k)"
          using j k0 mn by (cases j) auto
      qed
      then show ?thesis
        using step a k le by (intro disjI2 exI [of _ "Suc k"]) simp
    qed
  qed
qed

lemma gini_criterion_Nil: "gini_criterion [] = 0"
  by (simp add: gini_criterion_def)

lemma gini_criterion_single: "gini_criterion [a] = 0"
  by (simp add: gini_criterion_def n_eq_def)

lemma gini_criterion_01: "gini_criterion [0, 1] = 1/2"
  by (simp add: gini_criterion_def n_eq_def)

lemma weighted_gini_01_none:
  "weighted_criterion (init md None ''gini'') [False, False] [0, 1] = Inr (Some (Fin (1/2)))"
  by (simp add: weighted_criterion_def init_def weighted_average_def gini_criterion_Nil
      gini_criterion_01 mask_select_def sample_weight_def fl_div_def)

lemma weighted_gini_01_first:
  "weighted_criterion (init md None ''gini'') [True, False] [0, 1] = Inr (Some (Fin 0))"
  by (simp add: weighted_criterion_def init_def weighted_average_def gini_criterion_single
      mask_select_def sample_weight_def fl_div_def)

lemma split_on_feature_const_01:
  "split_on_feature remdups (init md None ''gini'') [0, 0] [0, 1] = Inr (Fin (1/2), 0)"
  by (simp add: split_on_feature_def weighted_gini_01_none)

lemma split_on_feature_sep_01:
  "split_on_feature remdups (init md None ''gini'') [0, 1] [0, 1] = Inr (Fin 0, 1)"
  by (simp add: split_on_feature_def weighted_gini_01_none weighted_gini_01_first)

lemma columns_2x2: "columns \<lparr>rows = [[a, b], [c, d]], shape1 = 2\<rparr> = [[a, c], [b, d]]"
  by (simp add: columns_def upt_rec)

lemma columns_2x3:
  "columns \<lparr>rows = [[a, b, c], [d, e, f]], shape1 = 3\<rparr> = [[a, d], [b, e], [c, f]]"
  by (simp add: columns_def upt_rec)

text \<open>What fit reads of the instance, what it leaves in it, and two runs of it.\<close>

lemma sample_weight_cong:
  "class_weight s = class_weight s' \<Longrightarrow> sample_weight s = sample_weight s'"
  by (rule ext) (simp add: sample_weight_def)

lemma weighted_average_cong:
  "class_weight s = class_weight s' \<Longrightarrow>
   weighted_average s f m y = weighted_average s' f m y"
  by (simp add: weighted_average_def sample_weight_cong [of s s'])

lemma weighted_criterion_cong:
  "criterion s = criterion s' \<Longrightarrow> class_weight s = class_weight s' \<Longrightarrow>
   weighted_criterion s m y = weighted_criterion s' m y"
  by (simp add: weighted_criterion_def weighted_average_cong [of s s'])

lemma split_on_feature_loop_cong:
  "criterion s = criterion s' \<Longrightarrow> class_weight s = class_weight s' \<Longrightarrow>
   split_on_feature_loop s vs c y acc = split_on_feature_loop s' vs c y acc"
proof (induction vs arbitrary: acc)
  case Nil
  then show ?case by simp
next
  case (Cons v vs)
  obtain m cu where acc: "acc = (m, cu)" by (cases acc) auto
  show ?case
    using Cons by (simp add: acc weighted_criterion_cong [of s s'] split: sum.splits option.splits)
qed

lemma split_on_feature_cong:
  "criterion s = criterion s' \<Longrightarrow> class_weight s = class_weight s' \<Longrightarrow>
   split_on_feature so s c y = split_on_feature so s' c y"
  by (simp add: split_on_feature_def split_on_feature_loop_cong [of s s'])

lemma find_best_split_loop_cong:
  "criterion s = criterion s' \<Longrightarrow> class_weight s = class_weight s' \<Longrightarrow>
   find_best_split_loop so s cs y i acc = find_best_split_loop so s' cs y i acc"
proof (induction cs arbitrary: i acc)
  case Nil
  then show ?case by simp
next
  case (Cons c cs)
  obtain bc bcu m where acc: "acc = (bc, bcu, m)" by (cases acc) auto
  show ?case
    using Cons by (simp add: acc split_on_feature_cong [of s s'] split: sum.splits prod.splits)
qed

lemma find_best_split_cong:
  "criterion s = criterion s' \<Longrightarrow> class_weight s = class_weight s' \<Longrightarrow>
   find_best_split so s x y = find_best_split so s' x y"
  by (simp add: find_best_split_def find_best_split_loop_cong [of s s'])

lemma cov_zeros: "cov [0, 0] [0, 0] = 0"
  by (simp add: cov_def)

lemma neg_corr_const_column: "neg_corr_criterion [False, False] [0, 1] = NaN"
  by (simp add: neg_corr_criterion_def corrcoef01_def cov_zeros)

lemma split_on_feature_neg_corr_const:
  "split_on_feature remdups (init md None ''neg_corr'') [0, 0] [0, 1] = Inr (Fin 10000000000, 1/2)"
  by (simp add: split_on_feature_def weighted_criterion_def init_def neg_corr_const_column)

lemma find_best_split_neg_corr_const:
  "find_best_split remdups (init md None ''neg_corr'') \<lparr>rows = [[0], [0]], shape1 = 1\<rparr> [0, 1]
   = Inr (Some 0, Some (1/2), Fin 10000000000)"
  by (simp add: find_best_split_def columns_def split_on_feature_neg_corr_const)

lemma mean_Nil: "mean [] = NaN"
  by (simp add: mean_def fl_div_def fl_of_sgn_def)

lemma mean_01: "mean [0, 1] = Fin (1/2)"
  by (simp add: mean_def fl_div_def)

lemma feature_names_set_feature_names_Some:
  "\<exists>names. feature_names (set_feature_names s x fnames) = Some names"
  by (cases "feature_names s"; cases fnames) (simp_all add: set_feature_names_def)

lemma set_feature_names_again:
  "feature_names s = Some names \<Longrightarrow> set_feature_names s x None = s"
  by (simp add: set_feature_names_def)

lemma same_config_set_feature_names:
  "same_config s s' \<Longrightarrow> same_config (set_feature_names s x f) (set_feature_names s' x' f')"
  by (simp add: same_config_def)

lemma fst_case_fit:
  "fst (case p of (Inl e, s3) \<Rightarrow> (Inl e, s3) | (Inr rest, s3) \<Rightarrow> (Inr (f rest), g rest s3))
   = (case fst p of Inl e \<Rightarrow> Inl e | Inr rest \<Rightarrow> Inr (f rest))"
  by (cases p) (simp split: sum.splits)

lemma fit_cong:
  assumes "same_config s s'"
    and "feature_names (set_feature_names s x fnames) = feature_names (set_feature_names s' x fnames)"
  shows "fst (fit so s x y d fnames) = fst (fit so s' x y d fnames)"
  using assms
proof (induction "nat (max_depth s - d)" arbitrary: s s' x y d fnames)
  case 0
  then have "max_depth s \<le> d" "max_depth s' \<le> d" by (simp_all add: same_config_def)
  then show ?case by (simp add: fit_base)
next
  case (Suc n)
  let ?s2 = "set_feature_names s x fnames"
  let ?s2' = "set_feature_names s' x fnames"
  have md: "max_depth s' = max_depth s" using Suc.prems(1) by (simp add: same_config_def)
  show ?case
  proof (cases "y = [] \<or> all_same y \<or> max_depth s \<le> d")
    case True
    then show ?thesis using md by (simp add: fit_base)
  next
    case False
    have sc: "same_config ?s2 ?s2'"
      using Suc.prems(1) by (rule same_config_set_feature_names)
    have fb: "find_best_split so ?s2' x y = find_best_split so ?s2 x y"
      using sc by (intro find_best_split_cong) (simp_all add: same_config_def)
    obtain names where nm: "feature_names ?s2 = Some names"
      using feature_names_set_feature_names_Some by blast
    then have nm': "feature_names ?s2' = Some names" using Suc.prems(2) by simp
    have rec: "fst (fit so ?s2 x' y' (d + 1) None) = fst (fit so ?s2' x' y' (d + 1) None)" for x' y'
    proof (rule Suc.hyps(1))
      show "n = nat (max_depth ?s2 - (d + 1))" using Suc.hyps(2) by simp
      show "same_config ?s2 ?s2'" by (rule sc)
      show "feature_names (set_feature_names ?s2 x' None)
              = feature_names (set_feature_names ?s2' x' None)"
        by (simp add: set_feature_names_again [OF nm] set_feature_names_again [OF nm'] nm nm')
    qed
    show ?thesis
      using False md
      by (simp add: fit.simps [of so s x y d fnames] fit.simps [of so s' x y d fnames]
          Let_def fb nm nm' fst_case_fit rec
          split: sum.splits option.splits prod.splits)
  qed
qed

lemma fit_post_state:
  "same_config (snd (fit so s x y d fnames)) s \<and>
   feature_names (snd (fit so s x y d fnames)) = feature_names (set_feature_names s x fnames)"
proof (induction "nat (max_depth s - d)" arbitrary: s x y d fnames)
  case 0
  then have "max_depth s \<le> d" by simp
  then show ?case by (simp add: fit_base same_config_def)
next
  case (Suc n)
  let ?s2 = "set_feature_names s x fnames"
  show ?case
  proof (cases "y = [] \<or> all_same y \<or> max_depth s \<le> d")
    case True
    then show ?thesis by (simp add: fit_base same_config_def)
  next
    case False
    obtain names where nm: "feature_names ?s2 = Some names"
      using feature_names_set_feature_names_Some by blast
    have rec: "same_config (snd (fit so ?s2 x' y' (d + 1) None)) s \<and>
               feature_names (snd (fit so ?s2 x' y' (d + 1) None)) = Some names" for x' y'
    proof -
      have "n = nat (max_depth ?s2 - (d + 1))" using Suc.hyps(2) by simp
      from Suc.hyps(1) [OF this]
      have "same_config (snd (fit so ?s2 x' y' (d + 1) None)) ?s2 \<and>
            feature_names (snd (fit so ?s2 x' y' (d + 1) None))
              = feature_names (set_feature_names ?s2 x' None)" .
      then show ?thesis
        by (simp add: set_feature_names_again [OF nm] nm same_config_def)
    qed
    have post: "same_config (snd (case p of (Inl e, s3) \<Rightarrow> (Inl e, s3)
                  | (Inr rest, s3) \<Rightarrow> (Inr (f rest), s3\<lparr>depth := depth s3 + 1, rules := g rest\<rparr>))) s \<and>
                feature_names (snd (case p of (Inl e, s3) \<Rightarrow> (Inl e, s3)
                  | (Inr rest, s3) \<Rightarrow> (Inr (f rest), s3\<lparr>depth := depth s3 + 1, rules := g rest\<rparr>)))
                  = Some names"
      if "same_config (snd p) s \<and> feature_names (snd p) = Some names" for p f g
      using that by (cases p) (simp add: same_config_def split: sum.splits)
    show ?thesis
      using False
      by (simp add: fit.simps [of so s x y d fnames] Let_def nm post [OF rec]
          split: sum.splits option.splits prod.splits)
        (simp add: same_config_def)
  qed
qed

lemma find_best_split_sep_01:
  "find_best_split remdups (init md None ''gini'') \<lparr>rows = [[0], [1]], shape1 = 1\<rparr> [0, 1]
   = Inr (Some 0, Some 1, Fin 0)"
  by (simp add: find_best_split_def columns_def split_on_feature_sep_01)

lemma mean_0: "mean [0] = Fin 0"
  by (simp add: mean_def fl_div_def)

lemma mean_1: "mean [1] = Fin 1"
  by (simp add: mean_def fl_div_def)

lemma fit_sep_01:
  "fst (fit remdups (init 5 None ''gini'') \<lparr>rows = [[0], [1]], shape1 = 1\<rparr> [0, 1] 0 None)
   = Inr [Split ''feat 0'' 0 1 (Fin (1/2)) False (Fin 1) 2 1, Leaf (Fin 0) 1]"
proof -
  let ?x = "\<lparr>rows = [[0], [1]], shape1 = 1\<rparr>"
  let ?s = "init 5 None ''gini''"
  let ?s2 = "set_feature_names ?s ?x None"
  have nm: "feature_names ?s2 = Some [''feat 0'']"
    by (simp add: set_feature_names_def init_def)
  have fb: "find_best_split remdups ?s2 ?x [0, 1] = Inr (Some 0, Some 1, Fin 0)"
    by (rule trans [OF find_best_split_cong find_best_split_sep_01]) simp_all
  have inner: "fit remdups ?s2 \<lparr>rows = [[0]], shape1 = 1\<rparr> [0] 1 None
                 = (Inr [Leaf (Fin 0) 1], set_feature_names ?s2 \<lparr>rows = [[0]], shape1 = 1\<rparr> None)"
    by (simp add: fit_base all_same_def del: One_nat_def)
  show ?thesis
    by (subst fit.simps)
      (simp add: Let_def not_all_same_01 fb nm mask_index_def mask_select_def mean_0 mean_1 mean_01
        inner del: One_nat_def)
qed

text \<open>
  Past the base cases: what a returning call of fit has computed, and the mean of the
  side it takes as the right one. Every node of a returned list has a right mean at least
  its \<^verbatim>\<open>val\<close>, unless its right side is empty.
\<close>

lemma mask_select_Nil [simp]: "mask_select [] m = []"
  by (simp add: mask_select_def)

lemma mask_select_Cons [simp]:
  "mask_select (a # as) (b # bs) = (if b then a # mask_select as bs else mask_select as bs)"
  by (simp add: mask_select_def)

lemma mask_select_partition:
  "length m = length (y :: real list) \<Longrightarrow>
   sum_list (mask_select y m) + sum_list (mask_select y (map Not m)) = sum_list y \<and>
   length (mask_select y m) + length (mask_select y (map Not m)) = length y"
proof (induction y arbitrary: m)
  case Nil
  then show ?case by simp
next
  case (Cons a y)
  then obtain b bs where m: "m = b # bs" "length bs = length y" by (cases m) auto
  with Cons.IH [of bs] show ?case by auto
qed

lemma ge_mask_is_not_lt: "map (\<lambda>v. v \<ge> cu) xc = map Not (map (\<lambda>v::real. v < cu) xc)"
  by (simp add: not_less)

lemma mean_weighted:
  fixes sl sr :: real and nl nr :: nat
  assumes "0 < nl" "0 < nr" "sl / real nl \<le> sr / real nr"
  shows "(sl + sr) / real (nl + nr) \<le> sr / real nr"
proof -
  from assms have "sl * real nr \<le> sr * real nl"
    by (simp add: field_simps)
  then have "(sl + sr) * real nr \<le> sr * real (nl + nr)"
    by (simp add: algebra_simps)
  with assms(1,2) show ?thesis by (simp add: field_simps)
qed

lemma mean_weighted_left:
  fixes sl sr :: real and nl nr :: nat
  assumes "0 < nl" "0 < nr" "sr / real nr \<le> sl / real nl"
  shows "(sl + sr) / real (nl + nr) \<le> sl / real nl"
  using mean_weighted [OF assms(2,1,3)] by (simp add: add.commute)

lemma mean_right_side:
  assumes "sum_list yl + sum_list yr = sum_list y" and "length yl + length yr = length y"
    and "(if fl_gt (mean yl) (mean yr) then yl else yr) \<noteq> []"
  shows "fl_le (mean y) (mean (if fl_gt (mean yl) (mean yr) then yl else yr))"
proof (cases "yl = []")
  case True
  with assms show ?thesis by (auto simp: mean_def fl_div_def fl_of_sgn_def)
next
  case l: False
  show ?thesis
  proof (cases "yr = []")
    case True
    with assms l show ?thesis by (auto simp: mean_def fl_div_def fl_of_sgn_def)
  next
    case r: False
    from l r have pos: "0 < length yl" "0 < length yr" by simp_all
    have "0 < length yl + length yr" using pos by simp
    then have "length y \<noteq> 0" unfolding assms(2) by simp
    then have my: "mean y = Fin ((sum_list yl + sum_list yr) / real (length yl + length yr))"
      using assms(1,2) by (simp add: mean_def fl_div_def)
    have ml: "mean yl = Fin (sum_list yl / real (length yl))"
      using pos by (simp add: mean_def fl_div_def)
    have mr: "mean yr = Fin (sum_list yr / real (length yr))"
      using pos by (simp add: mean_def fl_div_def)
    show ?thesis
    proof (cases "fl_gt (mean yl) (mean yr)")
      case True
      then have "sum_list yr / real (length yr) \<le> sum_list yl / real (length yl)"
        by (simp add: ml mr)
      from mean_weighted_left [OF pos this] True show ?thesis by (simp add: my ml)
    next
      case False
      then have "sum_list yl / real (length yl) \<le> sum_list yr / real (length yr)"
        by (simp add: ml mr)
      from mean_weighted [OF pos this] False show ?thesis by (simp add: my mr)
    qed
  qed
qed

lemma fit_split_cases:
  assumes "\<not> (y = [] \<or> all_same y \<or> max_depth s \<le> d)"
    and "fst (fit so s x y d fnames) = Inr ns"
  obtains c cu cv yl yr names rest where
    "find_best_split so (set_feature_names s x fnames) x y = Inr (Some c, Some cu, cv)"
    "mask_index y (map (\<lambda>v. v < cu) (map (\<lambda>r. r ! c) (rows x))) = Inr yl"
    "mask_index y (map (\<lambda>v. v \<ge> cu) (map (\<lambda>r. r ! c) (rows x))) = Inr yr"
    "feature_names (set_feature_names s x fnames) = Some names"
    "c < length names"
    "fst (fit so (set_feature_names s x fnames)
            (x\<lparr>rows := mask_select (rows x)
                  (if fl_gt (mean yl) (mean yr)
                   then map (\<lambda>v. v \<ge> cu) (map (\<lambda>r. r ! c) (rows x))
                   else map (\<lambda>v. v < cu) (map (\<lambda>r. r ! c) (rows x)))\<rparr>)
            (if fl_gt (mean yl) (mean yr) then yr else yl) (d + 1) None) = Inr rest"
    "ns = Split (names ! c) c cu (mean y) (fl_gt (mean yl) (mean yr))
            (mean (if fl_gt (mean yl) (mean yr) then yl else yr)) (length y)
            (length (if fl_gt (mean yl) (mean yr) then yl else yr)) # rest"
  using assms
  by (auto simp: fit.simps [of so s x y d fnames] Let_def
      simp del: map_map
      split: sum.splits option.splits prod.splits if_splits)

lemma fit_node_right_at_least_val:
  assumes "mask_index y (map (\<lambda>v. v < cu) xc) = Inr yl"
    and "mask_index y (map (\<lambda>v. v \<ge> cu) xc) = Inr yr"
  shows "right_at_least_val
           (Split nm c cu (mean y) (fl_gt (mean yl) (mean yr))
              (mean (if fl_gt (mean yl) (mean yr) then yl else yr)) (length y)
              (length (if fl_gt (mean yl) (mean yr) then yl else yr)))"
proof -
  let ?r = "if fl_gt (mean yl) (mean yr) then yl else yr"
  from assms(1) have yl: "yl = mask_select y (map (\<lambda>v. v < cu) xc)"
    by (auto simp: mask_index_def split: if_splits)
  from assms(2) have yr: "yr = mask_select y (map Not (map (\<lambda>v. v < cu) xc))"
    by (auto simp: mask_index_def ge_mask_is_not_lt split: if_splits)
  have "length ?r = 0 \<or> fl_le (mean y) (mean ?r)"
  proof (cases "xc = []")
    case True
    then show ?thesis by (simp add: yl yr mask_select_def)
  next
    case ne: False
    with assms(1) have len: "length (map (\<lambda>v. v < cu) xc) = length y"
      by (auto simp: mask_index_def split: if_splits)
    from mask_select_partition [OF len]
    have p: "sum_list yl + sum_list yr = sum_list y" "length yl + length yr = length y"
      by (simp_all add: yl yr)
    show ?thesis
    proof (cases "?r = []")
      case True
      then show ?thesis by simp
    next
      case False
      then show ?thesis using mean_right_side [OF p] by blast
    qed
  qed
  then show ?thesis
    by (simp add: right_at_least_val_def fl_ge_def)
qed

lemma fit_right_at_least_val:
  "fst (fit so s x y d fnames) = Inr ns \<Longrightarrow> list_all right_at_least_val ns"
proof (induction "nat (max_depth s - d)" arbitrary: s x y d fnames ns)
  case 0
  then have "max_depth s \<le> d" by simp
  with 0 show ?case by (auto simp: fit_base right_at_least_val_def split: if_splits)
next
  case (Suc n)
  let ?s2 = "set_feature_names s x fnames"
  show ?case
  proof (cases "y = [] \<or> all_same y \<or> max_depth s \<le> d")
    case True
    with Suc.prems show ?thesis by (auto simp: fit_base right_at_least_val_def split: if_splits)
  next
    case False
    from False Suc.prems obtain c cu cv yl yr names rest x' y' where
      yl: "mask_index y (map (\<lambda>v. v < cu) (map (\<lambda>r. r ! c) (rows x))) = Inr yl"
      and yr: "mask_index y (map (\<lambda>v. v \<ge> cu) (map (\<lambda>r. r ! c) (rows x))) = Inr yr"
      and rest: "fst (fit so ?s2 x' y' (d + 1) None) = Inr rest"
      and ns: "ns = Split (names ! c) c cu (mean y) (fl_gt (mean yl) (mean yr))
            (mean (if fl_gt (mean yl) (mean yr) then yl else yr)) (length y)
            (length (if fl_gt (mean yl) (mean yr) then yl else yr)) # rest"
      by (rule fit_split_cases) blast
    have "n = nat (max_depth ?s2 - (d + 1))" using Suc.hyps(2) by simp
    from Suc.hyps(1) [OF this rest] have "list_all right_at_least_val rest" .
    with fit_node_right_at_least_val [OF yl yr] show ?thesis
      unfolding ns by simp
  qed
qed

lemma fit_sep_01_state:
  "fit remdups (init 5 None ''gini'') \<lparr>rows = [[0], [1]], shape1 = 1\<rparr> [0, 1] 0 None
   = (Inr [Split ''feat 0'' 0 1 (Fin (1/2)) False (Fin 1) 2 1, Leaf (Fin 0) 1],
      \<lparr>depth = 1, max_depth = 5, feature_names = Some [''feat 0''], class_weight = None,
       criterion = ''gini'',
       rules = Some [Split ''feat 0'' 0 1 (Fin (1/2)) False (Fin 1) 2 1, Leaf (Fin 0) 1]\<rparr>)"
proof -
  let ?x = "\<lparr>rows = [[0], [1]], shape1 = 1\<rparr>"
  let ?s = "init 5 None ''gini''"
  let ?s2 = "\<lparr>depth = 0, max_depth = 5, feature_names = Some [''feat 0''],
             class_weight = None, criterion = ''gini'', rules = None\<rparr>"
  have s2: "set_feature_names ?s ?x None = ?s2"
    by (simp add: set_feature_names_def init_def)
  have fb: "find_best_split remdups ?s2 ?x [0, 1] = Inr (Some 0, Some 1, Fin 0)"
    by (rule trans [OF find_best_split_cong find_best_split_sep_01 [of 5]]) (simp_all add: init_def)
  have inner: "fit remdups ?s2 \<lparr>rows = [[0]], shape1 = 1\<rparr> [0] 1 None = (Inr [Leaf (Fin 0) 1], ?s2)"
    by (simp add: fit_base all_same_def set_feature_names_def del: One_nat_def)
  show ?thesis
    by (subst fit.simps)
      (simp add: Let_def not_all_same_01 fb mask_index_def mean_0 mean_1 mean_01
        inner s2 del: One_nat_def)
qed

text \<open>
  Class weights that sum to 0 make every weighted Gini score NaN, with the same effect as a
  constant column under \<^verbatim>\<open>neg_corr\<close>: the cutoff stays 0.5 and no row goes right.
\<close>

lemma weighted_gini_zero_weights:
  "weighted_criterion (init md (Some [0 \<mapsto> 0, 1 \<mapsto> 0]) ''gini'') [False, False] [0, 1]
   = Inr (Some NaN)"
  by (simp add: weighted_criterion_def init_def weighted_average_def gini_criterion_Nil
      gini_criterion_01 sample_weight_def fl_div_def fl_of_sgn_def)

lemma split_on_feature_zero_weights:
  "split_on_feature remdups (init md (Some [0 \<mapsto> 0, 1 \<mapsto> 0]) ''gini'') [0, 0] [0, 1]
   = Inr (Fin 10000000000, 1/2)"
  by (simp add: split_on_feature_def weighted_gini_zero_weights)

lemma find_best_split_zero_weights:
  "find_best_split remdups (init md (Some [0 \<mapsto> 0, 1 \<mapsto> 0]) ''gini'')
     \<lparr>rows = [[0], [0]], shape1 = 1\<rparr> [0, 1]
   = Inr (Some 0, Some (1/2), Fin 10000000000)"
  by (simp add: find_best_split_def columns_def split_on_feature_zero_weights)

lemma fit_zero_weights_nan:
  "fst (fit remdups (init 1 (Some [0 \<mapsto> 0, 1 \<mapsto> 0]) ''gini'')
          \<lparr>rows = [[0], [0]], shape1 = 1\<rparr> [0, 1] 0 None)
   = Inr [Split ''feat 0'' 0 (1/2) (Fin (1/2)) False NaN 2 0]"
proof -
  let ?x = "\<lparr>rows = [[0], [0]], shape1 = 1\<rparr>"
  let ?s = "init 1 (Some [0 \<mapsto> 0, 1 \<mapsto> 0]) ''gini''"
  let ?s2 = "set_feature_names ?s ?x None"
  have nm: "feature_names ?s2 = Some [''feat 0'']"
    by (simp add: set_feature_names_def init_def)
  have fb: "find_best_split remdups ?s2 ?x [0, 1] = Inr (Some 0, Some (1/2), Fin 10000000000)"
    by (rule trans [OF find_best_split_cong find_best_split_zero_weights]) simp_all
  have inner: "fit remdups ?s2 ?x [0, 1] 1 None = (Inr [], set_feature_names ?s2 ?x None)"
    by (simp add: fit_base not_all_same_01 del: One_nat_def)
  show ?thesis
    by (subst fit.simps)
      (simp add: Let_def not_all_same_01 fb nm mask_index_def mean_Nil mean_01 inner
        del: One_nat_def)
qed

text \<open>
  Two columns, the second separating the labels: on a fresh instance, and on an instance
  that holds the single feature name of an earlier fit.
\<close>

lemma find_best_split_two_columns:
  "find_best_split remdups (init md None ''gini'') \<lparr>rows = [[0, 0], [0, 1]], shape1 = 2\<rparr> [0, 1]
   = Inr (Some 1, Some 1, Fin 0)"
  by (simp add: find_best_split_def columns_2x2 split_on_feature_const_01 split_on_feature_sep_01)

lemma fit_two_columns_fresh:
  "fst (fit remdups (init 5 None ''gini'') \<lparr>rows = [[0, 0], [0, 1]], shape1 = 2\<rparr> [0, 1] 0 None)
   = Inr [Split ''feat 1'' 1 1 (Fin (1/2)) False (Fin 1) 2 1, Leaf (Fin 0) 1]"
proof -
  let ?x = "\<lparr>rows = [[0, 0], [0, 1]], shape1 = 2\<rparr>"
  let ?s = "init 5 None ''gini''"
  let ?s2 = "\<lparr>depth = 0, max_depth = 5, feature_names = Some [''feat 0'', ''feat 1''],
             class_weight = None, criterion = ''gini'', rules = None\<rparr>"
  have s2: "set_feature_names ?s ?x None = ?s2"
    by (simp add: set_feature_names_def init_def upt_conv_Cons)
  have fb: "find_best_split remdups ?s2 ?x [0, 1] = Inr (Some 1, Some 1, Fin 0)"
    by (rule trans [OF find_best_split_cong find_best_split_two_columns [of 5]])
      (simp_all add: init_def)
  have inner: "fit remdups ?s2 \<lparr>rows = [[0, 0]], shape1 = 2\<rparr> [0] 1 None
                 = (Inr [Leaf (Fin 0) 1], ?s2)"
    by (simp add: fit_base all_same_def set_feature_names_def del: One_nat_def)
  show ?thesis
    by (subst fit.simps)
      (simp add: Let_def not_all_same_01 fb mask_index_def mean_0 mean_1 mean_01
        inner s2 del: One_nat_def)
qed

lemma fit_two_columns_used:
  "fst (fit remdups
          \<lparr>depth = 1, max_depth = 5, feature_names = Some [''feat 0''], class_weight = None,
           criterion = ''gini'',
           rules = Some [Split ''feat 0'' 0 1 (Fin (1/2)) False (Fin 1) 2 1, Leaf (Fin 0) 1]\<rparr>
          \<lparr>rows = [[0, 0], [0, 1]], shape1 = 2\<rparr> [0, 1] 0 None)
   = Inl IndexError"
proof -
  let ?x = "\<lparr>rows = [[0, 0], [0, 1]], shape1 = 2\<rparr>"
  let ?u = "\<lparr>depth = 1, max_depth = 5, feature_names = Some [''feat 0''], class_weight = None,
            criterion = ''gini'',
            rules = Some [Split ''feat 0'' 0 1 (Fin (1/2)) False (Fin 1) 2 1, Leaf (Fin 0) 1]\<rparr>"
  have s2: "set_feature_names ?u ?x None = ?u"
    by (simp add: set_feature_names_def)
  have fb: "find_best_split remdups ?u ?x [0, 1] = Inr (Some 1, Some 1, Fin 0)"
    by (rule trans [OF find_best_split_cong find_best_split_two_columns [of 5]])
      (simp_all add: init_def)
  show ?thesis
    by (subst fit.simps)
      (simp add: Let_def not_all_same_01 fb mask_index_def s2 del: One_nat_def)
qed

section \<open>Inference returns val, not val_right\<close>

text \<open>
  C1 (as the code behaves at a failing input). fit on the feature \<^verbatim>\<open>X = [[0], [1]]\<close>
  and the labels \<^verbatim>\<open>y = [0, 1]\<close> stores the rule list
  \<^verbatim>\<open>[{index_col: 0, cutoff: 1, val: 0.5, flip: False, val_right: 1.0, num_pts: 2,
  num_pts_right: 1}, {val: 0, num_pts: 1}]\<close>. For the row \<^verbatim>\<open>[1]\<close> the first split's test
  \<^verbatim>\<open>1 >= 1\<close> succeeds, and the probability assigned by predict_proba is the node's
  \<^verbatim>\<open>val\<close> 0.5, where the specification promises \<^verbatim>\<open>val_right\<close> 1.0.
\<close>

theorem predict_proba_mid_split_gives_val:
  "rules (snd (fit remdups (init 5 None ''gini'') \<lparr>rows = [[0], [1]], shape1 = 1\<rparr> [0, 1] 0 None))
     = Some [Split ''feat 0'' 0 1 (Fin (1/2)) False (Fin 1) 2 1, Leaf (Fin 0) 1] \<and>
   predict_proba
     (snd (fit remdups (init 5 None ''gini'') \<lparr>rows = [[0], [1]], shape1 = 1\<rparr> [0, 1] 0 None))
     \<lparr>rows = [[1]], shape1 = 1\<rparr>
     = Inr [(Fin (1/2), Fin (1/2))]"
  unfolding fit_sep_01_state by (simp add: predict_proba_def fl_sub_def)

section \<open>Arrays of different lengths in the weighted criterion\<close>

text \<open>
  C2 (as stated, refuted). The specification says that a split mask and a label vector of different
  lengths make \<^verbatim>\<open>weighted_criterion\<close> raise. On a mask of length 1 and two labels the
  call returns normally, with the value \<^verbatim>\<open>None\<close>.
\<close>

theorem weighted_criterion_mismatch_no_raise:
  "weighted_criterion (init 5 None ''gini'') [True] [0, 1] = Inr None"
  by (simp add: weighted_criterion_def)

text \<open>
  C2 (amended). For every split mask and label vector of different lengths, and every
  criterion name and class weights, \<^verbatim>\<open>weighted_criterion\<close> does not raise: it returns
  \<^verbatim>\<open>None\<close> (after printing a message) and computes no criterion value.
\<close>

theorem weighted_criterion_mismatch_returns_none:
  "length split_decision \<noteq> length y_real \<Longrightarrow>
   weighted_criterion s split_decision y_real = Inr None"
  by (simp add: weighted_criterion_def)

theorem weighted_criterion_mismatch_returns_none_witness:
  "length [True] \<noteq> length [0, 1 :: real] \<and>
   weighted_criterion (init 5 None ''entropy'') [True] [0, 1] = Inr None"
  using weighted_criterion_mismatch_returns_none [of "[True]" "[0, 1]" "init 5 None ''entropy''"]
  by simp

section \<open>An unknown criterion name\<close>

text \<open>
  C4 (as stated, refuted). The specification says that every call of fit with a criterion name
  outside gini, entropy and neg_corr raises before any computation. With the name
  \<^verbatim>\<open>mse\<close> and the all-equal labels \<^verbatim>\<open>[1, 1]\<close> fit raises nothing: it returns one leaf.
\<close>

theorem fit_unknown_criterion_pure_returns_leaf:
  "fit remdups (init 5 None ''mse'') \<lparr>rows = [[0], [1]], shape1 = 1\<rparr> [1, 1] 0 None
   = (Inr [Leaf (Fin 1) 2],
      (init 5 None ''mse'')\<lparr>feature_names := Some [''feat 0'']\<rparr>)"
  by (simp add: fit_base all_same_def set_feature_names_def init_def)

text \<open>
  C4 (amended). For every call of fit with a criterion name outside gini, entropy and
  neg_corr: when the call ends in a base case (no label, all labels equal, or
  \<^verbatim>\<open>depth >= max_depth\<close>) it returns a node list and raises nothing; otherwise, on a
  matrix with at least one column and as many rows as labels, it raises UnboundLocalError
  at the first scoring of a split, before any node is built, and leaves the instance as the
  assignments to \<^verbatim>\<open>feature_names\<close> made it (\<^verbatim>\<open>rules_\<close> is not assigned).
\<close>

theorem fit_unknown_criterion:
  assumes "criterion s \<notin> {''gini'', ''entropy'', ''neg_corr''}"
  shows "((y = [] \<or> all_same y \<or> max_depth s \<le> d) \<longrightarrow>
            (\<exists>ns. fst (fit so s x y d fnames) = Inr ns)) \<and>
         (\<not> all_same y \<and> d < max_depth s \<and> 0 < shape1 x \<and> length (rows x) = length y \<and>
          set_order_ok so \<longrightarrow>
            fit so s x y d fnames = (Inl UnboundLocalError, set_feature_names s x fnames))"
proof (intro conjI impI)
  assume "y = [] \<or> all_same y \<or> max_depth s \<le> d"
  then show "\<exists>ns. fst (fit so s x y d fnames) = Inr ns" by (simp add: fit_base)
next
  assume h: "\<not> all_same y \<and> d < max_depth s \<and> 0 < shape1 x \<and> length (rows x) = length y \<and>
             set_order_ok so"
  then have ne: "y \<noteq> []" by auto
  have "find_best_split so (set_feature_names s x fnames) x y = Inl UnboundLocalError"
    using assms h ne by (intro find_best_split_unknown) simp_all
  then show "fit so s x y d fnames = (Inl UnboundLocalError, set_feature_names s x fnames)"
    using h ne by (subst fit.simps) (simp add: Let_def)
qed

theorem fit_unknown_criterion_witness:
  "criterion (init 5 None ''mse'') \<notin> {''gini'', ''entropy'', ''neg_corr''} \<and>
   ([1, 1] = [] \<or> all_same [1, 1] \<or> max_depth (init 5 None ''mse'') \<le> 0) \<and>
   (\<exists>ns. fst (fit remdups (init 5 None ''mse'') \<lparr>rows = [[0], [1]], shape1 = 1\<rparr> [1, 1] 0 None) = Inr ns) \<and>
   (\<not> all_same [0, 1] \<and> 0 < max_depth (init 5 None ''mse'') \<and>
    0 < shape1 \<lparr>rows = [[0], [1]], shape1 = 1\<rparr> \<and>
    length (rows \<lparr>rows = [[0], [1]], shape1 = 1\<rparr>) = length [0, 1 :: real] \<and>
    set_order_ok remdups) \<and>
   fst (fit remdups (init 5 None ''mse'') \<lparr>rows = [[0], [1]], shape1 = 1\<rparr> [0, 1] 0 None)
     = Inl UnboundLocalError"
  using fit_unknown_criterion [of "init 5 None ''mse''" "[1, 1]" 0 remdups
      "\<lparr>rows = [[0], [1]], shape1 = 1\<rparr>" None]
    fit_unknown_criterion [of "init 5 None ''mse''" "[0, 1]" 0 remdups
      "\<lparr>rows = [[0], [1]], shape1 = 1\<rparr>" None]
  by (simp add: not_all_same_01 set_order_ok_remdups all_same_def init_def)

section \<open>All labels equal\<close>

text \<open>
  C7. For every non-empty label vector whose entries all equal \<open>c\<close>, fit (at any depth, on
  any instance and matrix) returns the list of exactly one leaf, whose \<^verbatim>\<open>val\<close> is \<open>c\<close>
  and whose \<^verbatim>\<open>num_pts\<close> is the length of the label vector.
\<close>

theorem fit_all_equal_single_leaf:
  "y \<noteq> [] \<Longrightarrow> \<forall>v\<in>set y. v = c \<Longrightarrow>
   fst (fit so s x y d fnames) = Inr [Leaf (Fin c) (length y)]"
proof -
  assume ne: "y \<noteq> []" and eq: "\<forall>v\<in>set y. v = c"
  from ne have "y ! 0 \<in> set y" by simp
  with eq have y0: "y ! 0 = c" by blast
  with eq have "all_same y" by (simp add: all_same_iff)
  with ne y0 show ?thesis by (simp add: fit_base)
qed

theorem fit_all_equal_single_leaf_witness:
  "[1, 1, 1 :: real] \<noteq> [] \<and> set [1, 1, 1 :: real] = {1} \<and>
   fst (fit remdups (init 5 None ''gini'') \<lparr>rows = [[0], [1], [2]], shape1 = 1\<rparr> [1, 1, 1] 0 None)
     = Inr [Leaf (Fin 1) 3]"
  using fit_all_equal_single_leaf [of "[1, 1, 1]" 1 remdups "init 5 None ''gini''"
      "\<lparr>rows = [[0], [1], [2]], shape1 = 1\<rparr>" 0 None]
  by simp

section \<open>max_depth = 0\<close>

text \<open>
  C8 (as stated, refuted). The specification says that after fit with \<^verbatim>\<open>max_depth=0\<close> on
  non-pure labels, predict and predict_proba on the fresh instance raise. On an input of
  no row both return an empty result: \<^verbatim>\<open>self.rules_\<close> is only read inside the loop
  over the rows.
\<close>

theorem predict_no_rows_after_max_depth_zero:
  "fst (fit remdups (init 0 None ''gini'') \<lparr>rows = [[0], [1]], shape1 = 1\<rparr> [0, 1] 0 None) = Inr [] \<and>
   predict_proba (snd (fit remdups (init 0 None ''gini'') \<lparr>rows = [[0], [1]], shape1 = 1\<rparr> [0, 1] 0 None))
     \<lparr>rows = [], shape1 = 1\<rparr> = Inr [] \<and>
   predict (snd (fit remdups (init 0 None ''gini'') \<lparr>rows = [[0], [1]], shape1 = 1\<rparr> [0, 1] 0 None))
     \<lparr>rows = [], shape1 = 1\<rparr> = Inr []"
  by (simp add: fit_base not_all_same_01 predict_proba_no_rows predict_no_rows)

text \<open>
  C8 (amended). For every non-pure label vector, fit on a fresh instance with
  \<^verbatim>\<open>max_depth=0\<close> returns the empty rule list, and predict and predict_proba on that
  instance raise AttributeError on every input of at least one row.
\<close>

theorem fit_max_depth_zero_predict_raises:
  assumes "\<not> all_same y" and "rows X \<noteq> []"
  shows "fst (fit so (init 0 cw cr) x y 0 fnames) = Inr [] \<and>
         predict_proba (snd (fit so (init 0 cw cr) x y 0 fnames)) X = Inl AttributeError \<and>
         predict (snd (fit so (init 0 cw cr) x y 0 fnames)) X = Inl AttributeError"
proof -
  from assms(1) have ne: "y \<noteq> []" by auto
  have f: "fit so (init 0 cw cr) x y 0 fnames = (Inr [], set_feature_names (init 0 cw cr) x fnames)"
    using assms(1) ne by (simp add: fit_base)
  show ?thesis
    using assms(2) by (simp add: f predict_proba_unfitted predict_unfitted)
qed

theorem fit_max_depth_zero_predict_raises_witness:
  "\<not> all_same [0, 1] \<and> rows \<lparr>rows = [[7]], shape1 = 1\<rparr> \<noteq> [] \<and>
   fst (fit remdups (init 0 None ''gini'') \<lparr>rows = [[0], [1]], shape1 = 1\<rparr> [0, 1] 0 None) = Inr [] \<and>
   predict_proba (snd (fit remdups (init 0 None ''gini'') \<lparr>rows = [[0], [1]], shape1 = 1\<rparr> [0, 1] 0 None))
     \<lparr>rows = [[7]], shape1 = 1\<rparr> = Inl AttributeError"
  using fit_max_depth_zero_predict_raises [of "[0, 1]" "\<lparr>rows = [[7]], shape1 = 1\<rparr>" remdups None
      "''gini''" "\<lparr>rows = [[0], [1]], shape1 = 1\<rparr>" None]
  by (simp add: not_all_same_01)

section \<open>A base case does not assign rules_\<close>

text \<open>
  C10 (as stated, refuted). The specification says that after a top-level fit that ends in a base
  case, predict_proba and predict on the freshly constructed instance raise an attribute
  error. After fit on the all-equal labels \<^verbatim>\<open>[1, 1]\<close>, which returns one leaf, both
  return an empty result on an input of no row.
\<close>

theorem predict_no_rows_after_base_case:
  "fst (fit remdups (init 5 None ''gini'') \<lparr>rows = [[0], [1]], shape1 = 1\<rparr> [1, 1] 0 None)
     = Inr [Leaf (Fin 1) 2] \<and>
   predict_proba (snd (fit remdups (init 5 None ''gini'') \<lparr>rows = [[0], [1]], shape1 = 1\<rparr> [1, 1] 0 None))
     \<lparr>rows = [], shape1 = 1\<rparr> = Inr [] \<and>
   predict (snd (fit remdups (init 5 None ''gini'') \<lparr>rows = [[0], [1]], shape1 = 1\<rparr> [1, 1] 0 None))
     \<lparr>rows = [], shape1 = 1\<rparr> = Inr []"
  by (simp add: fit_base all_same_def predict_proba_no_rows predict_no_rows)

text \<open>
  C10 (amended). For every call of fit that ends in a base case (no label, all labels equal,
  or \<^verbatim>\<open>depth >= max_depth\<close>), a node list is returned and \<^verbatim>\<open>rules_\<close> is left as it
  was. Consequently, on an instance whose \<^verbatim>\<open>rules_\<close> was never assigned, predict_proba
  and predict then raise AttributeError on every input of at least one row; and on any
  instance they return what they returned before the call, from the earlier rule list.
\<close>

theorem fit_base_case_keeps_rules:
  assumes "y = [] \<or> all_same y \<or> max_depth s \<le> d"
  shows "rules (snd (fit so s x y d fnames)) = rules s \<and>
         (\<exists>ns. fst (fit so s x y d fnames) = Inr ns) \<and>
         (rules s = None \<and> rows X \<noteq> [] \<longrightarrow>
            predict_proba (snd (fit so s x y d fnames)) X = Inl AttributeError \<and>
            predict (snd (fit so s x y d fnames)) X = Inl AttributeError) \<and>
         predict_proba (snd (fit so s x y d fnames)) X = predict_proba s X \<and>
         predict (snd (fit so s x y d fnames)) X = predict s X"
proof -
  have r: "rules (snd (fit so s x y d fnames)) = rules s"
    using assms by (simp add: fit_base)
  have e: "\<exists>ns. fst (fit so s x y d fnames) = Inr ns"
    using assms by (simp add: fit_base)
  show ?thesis
    using r e predict_proba_cong [OF r, of X] predict_cong [OF r, of X]
    by (auto simp: predict_proba_unfitted predict_unfitted)
qed

theorem fit_base_case_keeps_rules_witness:
  "([1, 1] = [] \<or> all_same [1, 1] \<or> max_depth (init 5 None ''gini'') \<le> 0) \<and>
   rules (init 5 None ''gini'') = None \<and> rows \<lparr>rows = [[7]], shape1 = 1\<rparr> \<noteq> [] \<and>
   rules (snd (fit remdups (init 5 None ''gini'') \<lparr>rows = [[0], [1]], shape1 = 1\<rparr> [1, 1] 0 None)) = None \<and>
   fst (fit remdups (init 5 None ''gini'') \<lparr>rows = [[0], [1]], shape1 = 1\<rparr> [1, 1] 0 None)
     = Inr [Leaf (Fin 1) 2] \<and>
   predict_proba (snd (fit remdups (init 5 None ''gini'') \<lparr>rows = [[0], [1]], shape1 = 1\<rparr> [1, 1] 0 None))
     \<lparr>rows = [[7]], shape1 = 1\<rparr> = Inl AttributeError"
  using fit_base_case_keeps_rules [of "[1, 1]" "init 5 None ''gini''" 0 remdups
      "\<lparr>rows = [[0], [1]], shape1 = 1\<rparr>" None "\<lparr>rows = [[7]], shape1 = 1\<rparr>"]
  by (simp add: all_same_def fit_base)

section \<open>Best-split search\<close>

text \<open>
  C5. In the left-to-right scan of the columns by find_best_split, when a column scores
  exactly 0 (and every column to its left was scored with a value other than 0), its
  index, its cutoff and the value 0 are returned; the columns to its right are not scanned:
  the scan returns the same whatever columns follow.
\<close>

theorem find_best_split_zero_short_circuit:
  assumes "columns x = pre @ c # rest"
    and "\<forall>p\<in>set pre. \<exists>v cu'. split_on_feature so s p y = Inr (v, cu') \<and> v \<noteq> Fin 0"
    and "split_on_feature so s c y = Inr (Fin 0, cu)"
  shows "find_best_split so s x y = Inr (Some (length pre), Some cu, Fin 0) \<and>
         (\<forall>rest'. find_best_split_loop so s (pre @ c # rest') y 0 (None, None, Fin 10000000000)
                    = Inr (Some (length pre), Some cu, Fin 0))"
  using find_best_split_loop_zero [OF assms(2,3), of _ 0]
  by (simp add: find_best_split_def assms(1))

theorem find_best_split_zero_short_circuit_witness:
  "columns \<lparr>rows = [[0, 0, 5], [0, 1, 5]], shape1 = 3\<rparr> = [[0, 0]] @ [0, 1] # [[5, 5]] \<and>
   split_on_feature remdups (init 5 None ''gini'') [0, 0] [0, 1] = Inr (Fin (1/2), 0) \<and>
   split_on_feature remdups (init 5 None ''gini'') [0, 1] [0, 1] = Inr (Fin 0, 1) \<and>
   find_best_split remdups (init 5 None ''gini'') \<lparr>rows = [[0, 0, 5], [0, 1, 5]], shape1 = 3\<rparr> [0, 1]
     = Inr (Some 1, Some 1, Fin 0)"
  using find_best_split_zero_short_circuit [of "\<lparr>rows = [[0, 0, 5], [0, 1, 5]], shape1 = 3\<rparr>"
      "[[0, 0]]" "[0, 1]" "[[5, 5]]" remdups "init 5 None ''gini''" "[0, 1]" 1]
  by (simp add: columns_2x3 split_on_feature_const_01 split_on_feature_sep_01)

text \<open>
  C3 (as stated, refuted). The specification says that among columns tied at the minimal criterion
  value the lowest index is returned. On two equal columns, both scoring 1/2 on the labels
  \<^verbatim>\<open>[0, 1]\<close>, find_best_split returns column 1, not column 0.
\<close>

theorem find_best_split_tie_returns_last:
  "columns \<lparr>rows = [[0, 0], [0, 0]], shape1 = 2\<rparr> = [[0, 0], [0, 0]] \<and>
   split_on_feature remdups (init 5 None ''gini'') [0, 0] [0, 1] = Inr (Fin (1/2), 0) \<and>
   find_best_split remdups (init 5 None ''gini'') \<lparr>rows = [[0, 0], [0, 0]], shape1 = 2\<rparr> [0, 1]
     = Inr (Some 1, Some 0, Fin (1/2))"
  by (simp add: columns_2x2 split_on_feature_const_01 find_best_split_def)

text \<open>
  C3 (amended). When find_best_split scores every column and none scores exactly 0 (no
  short-circuit), the returned column attains the minimal criterion value, with its own
  cutoff, and every column attaining that value has an index at most the returned one:
  among tied columns the highest index is returned.
\<close>

theorem find_best_split_tie_highest_column:
  assumes "columns x \<noteq> []"
    and "\<forall>j<length (columns x).
           \<exists>v cu. split_on_feature so s (columns x ! j) y = Inr (v, cu) \<and> v \<noteq> Fin 0"
  shows "\<exists>k cu m. find_best_split so s x y = Inr (Some k, Some cu, m) \<and>
           k < length (columns x) \<and>
           split_on_feature so s (columns x ! k) y = Inr (m, cu) \<and>
           (\<forall>j<length (columns x). \<forall>v cu'.
              split_on_feature so s (columns x ! j) y = Inr (v, cu') \<longrightarrow>
              fl_le m v \<and> (v = m \<longrightarrow> j \<le> k))"
proof -
  let ?cs = "columns x"
  let ?V = "\<lambda>j. fst (projr (split_on_feature so s (?cs ! j) y))"
  have h: "\<forall>j<length ?cs. \<exists>cu. split_on_feature so s (?cs ! j) y = Inr (?V j, cu) \<and> ?V j \<noteq> Fin 0"
    using assms(2) by fastforce
  from assms(1) have len: "0 < length ?cs" by simp
  with h obtain cu0 where "split_on_feature so s (?cs ! 0) y = Inr (?V 0, cu0)" by blast
  then have le0: "fl_le (?V 0) (Fin 10000000000)" by (rule split_on_feature_le)
  have "fl_le (Fin 10000000000) (Fin 10000000000)" by simp
  from find_best_split_loop_min [OF h this, of 0 None None] le0 len
  obtain k where k: "k < length ?cs"
    and r: "find_best_split so s x y
              = Inr (Some k, Some (snd (projr (split_on_feature so s (?cs ! k) y))), ?V k)"
    and mn: "\<forall>j<length ?cs. fl_le (?V k) (?V j) \<and> (?V j = ?V k \<longrightarrow> j \<le> k)"
    unfolding find_best_split_def by auto
  from h k obtain cuk where ck: "split_on_feature so s (?cs ! k) y = Inr (?V k, cuk)" by blast
  have sk: "snd (projr (split_on_feature so s (?cs ! k) y)) = cuk"
    by (subst ck) simp
  have al: "\<forall>j<length ?cs. \<forall>v cu'. split_on_feature so s (?cs ! j) y = Inr (v, cu') \<longrightarrow>
          fl_le (?V k) v \<and> (v = ?V k \<longrightarrow> j \<le> k)"
    using mn by auto
  show ?thesis
    using r k ck al unfolding sk by (intro exI [of _ k] exI [of _ cuk] exI [of _ "?V k"]) simp
qed

theorem find_best_split_tie_highest_column_witness:
  "columns \<lparr>rows = [[0, 0], [0, 0]], shape1 = 2\<rparr> \<noteq> [] \<and>
   split_on_feature remdups (init 5 None ''gini'') [0, 0] [0, 1] = Inr (Fin (1/2), 0) \<and>
   (\<exists>k cu m. find_best_split remdups (init 5 None ''gini'')
                \<lparr>rows = [[0, 0], [0, 0]], shape1 = 2\<rparr> [0, 1] = Inr (Some k, Some cu, m) \<and>
      k < 2 \<and> split_on_feature remdups (init 5 None ''gini'') ([[0, 0], [0, 0]] ! k) [0, 1] = Inr (m, cu))"
proof -
  let ?x = "\<lparr>rows = [[0, 0], [0, 0]], shape1 = 2\<rparr>"
  let ?s = "init 5 None ''gini''"
  have cs: "columns ?x = [[0, 0], [0, 0]]" by (rule columns_2x2)
  have ne: "columns ?x \<noteq> []" by (simp add: cs)
  have sc: "\<forall>j<length (columns ?x).
              \<exists>v cu. split_on_feature remdups ?s (columns ?x ! j) [0, 1] = Inr (v, cu) \<and> v \<noteq> Fin 0"
    by (simp add: cs less_2_cases_iff nth_Cons' split_on_feature_const_01)
  from find_best_split_tie_highest_column [OF ne sc]
  obtain k cu m where "find_best_split remdups ?s ?x [0, 1] = Inr (Some k, Some cu, m)"
    and "k < length (columns ?x)"
    and "split_on_feature remdups ?s (columns ?x ! k) [0, 1] = Inr (m, cu)"
    by blast
  then have "\<exists>k cu m. find_best_split remdups ?s ?x [0, 1] = Inr (Some k, Some cu, m) \<and>
      k < 2 \<and> split_on_feature remdups ?s ([[0, 0], [0, 0]] ! k) [0, 1] = Inr (m, cu)"
    by (auto simp: cs)
  then show ?thesis
    using ne split_on_feature_const_01 [of 5] by blast
qed

section \<open>The normalisation of the two sides\<close>

text \<open>
  C6 (as the code behaves at a failing input). With the criterion \<^verbatim>\<open>neg_corr\<close>, one
  constant feature \<^verbatim>\<open>X = [[0], [0]]\<close> and the labels \<^verbatim>\<open>y = [0, 1]\<close>, every threshold
  scores NaN, the cutoff stays at its initial 0.5 and the right side of the split is empty.
  fit emits a split node with \<^verbatim>\<open>val\<close> 0.5 and \<^verbatim>\<open>val_right\<close> NaN (the mean of no
  label), for which \<^verbatim>\<open>val_right >= val\<close> is false.
\<close>

theorem fit_neg_corr_const_column_nan:
  "fst (fit remdups (init 1 None ''neg_corr'') \<lparr>rows = [[0], [0]], shape1 = 1\<rparr> [0, 1] 0 None)
     = Inr [Split ''feat 0'' 0 (1/2) (Fin (1/2)) False NaN 2 0] \<and>
   \<not> fl_ge NaN (Fin (1/2))"
proof -
  let ?x = "\<lparr>rows = [[0], [0]], shape1 = 1\<rparr>"
  let ?s = "init 1 None ''neg_corr''"
  let ?s2 = "set_feature_names ?s ?x None"
  have nm: "feature_names ?s2 = Some [''feat 0'']"
    by (simp add: set_feature_names_def init_def)
  have fb: "find_best_split remdups ?s2 ?x [0, 1] = Inr (Some 0, Some (1/2), Fin 10000000000)"
    by (rule trans [OF find_best_split_cong find_best_split_neg_corr_const]) simp_all
  have inner: "fit remdups ?s2 ?x [0, 1] 1 None = (Inr [], set_feature_names ?s2 ?x None)"
    by (simp add: fit_base not_all_same_01 del: One_nat_def)
  have "fst (fit remdups ?s ?x [0, 1] 0 None)
          = Inr [Split ''feat 0'' 0 (1/2) (Fin (1/2)) False NaN 2 0]"
    by (subst fit.simps)
      (simp add: Let_def not_all_same_01 fb nm mask_index_def mask_select_def mean_Nil mean_01 inner
        del: One_nat_def)
  then show ?thesis by (simp add: fl_ge_def)
qed

section \<open>Determinism\<close>

text \<open>
  C9 (as stated, refuted). The specification says that two calls of fit on the same inputs, on
  the same or on identically configured instances, return identical rule sequences. Take
  two instances built with the same constructor arguments, one fresh and one that has been
  fitted before on the one-column matrix \<^verbatim>\<open>[[0], [1]]\<close>, and fit both on the two-column
  matrix \<^verbatim>\<open>[[0, 0], [0, 1]]\<close> with the labels \<^verbatim>\<open>[0, 1]\<close>. The fresh instance returns
  a split on \<^verbatim>\<open>feat 1\<close> and a leaf; the other one kept \<^verbatim>\<open>feature_names = ['feat 0']\<close>
  (line 53 only assigns the names when there are none) and raises IndexError on
  \<^verbatim>\<open>self.feature_names[1]\<close>.
\<close>

theorem fit_stale_feature_names_differs:
  "same_config (init 5 None ''gini'')
     (snd (fit remdups (init 5 None ''gini'') \<lparr>rows = [[0], [1]], shape1 = 1\<rparr> [0, 1] 0 None)) \<and>
   fst (fit remdups (init 5 None ''gini'') \<lparr>rows = [[0, 0], [0, 1]], shape1 = 2\<rparr> [0, 1] 0 None)
     = Inr [Split ''feat 1'' 1 1 (Fin (1/2)) False (Fin 1) 2 1, Leaf (Fin 0) 1] \<and>
   fst (fit remdups
          (snd (fit remdups (init 5 None ''gini'') \<lparr>rows = [[0], [1]], shape1 = 1\<rparr> [0, 1] 0 None))
          \<lparr>rows = [[0, 0], [0, 1]], shape1 = 2\<rparr> [0, 1] 0 None)
     = Inl IndexError"
  unfolding fit_sep_01_state
  by (simp only: fit_two_columns_fresh fit_two_columns_used snd_conv simp_thms)
    (simp add: same_config_def init_def)

text \<open>
  C9 (amended). Two calls of fit with the same arguments return the same node list (or raise
  the same exception) on two instances that agree on \<^verbatim>\<open>max_depth\<close>,
  \<^verbatim>\<open>class_weight\<close>, \<^verbatim>\<open>criterion\<close> and on the feature names in force for the call (the
  argument \<^verbatim>\<open>feature_names\<close> when given, else the names the instance holds, else the
  defaults), whatever their \<^verbatim>\<open>depth\<close> and \<^verbatim>\<open>rules_\<close>; and a second call of fit with
  the same arguments on the instance that the first call left returns the same as the first.
\<close>

theorem fit_deterministic_given_names:
  "(same_config s s' \<and>
    feature_names (set_feature_names s x fnames) = feature_names (set_feature_names s' x fnames) \<longrightarrow>
      fst (fit so s x y d fnames) = fst (fit so s' x y d fnames)) \<and>
   fst (fit so (snd (fit so s x y d fnames)) x y d fnames) = fst (fit so s x y d fnames)"
proof (intro conjI impI)
  assume h: "same_config s s' \<and>
    feature_names (set_feature_names s x fnames) = feature_names (set_feature_names s' x fnames)"
  then show "fst (fit so s x y d fnames) = fst (fit so s' x y d fnames)"
    by (intro fit_cong) simp_all
next
  let ?t = "snd (fit so s x y d fnames)"
  from fit_post_state [of so s x y d fnames]
  have sc: "same_config ?t s"
    and fn: "feature_names ?t = feature_names (set_feature_names s x fnames)"
    by simp_all
  obtain names where nm: "feature_names (set_feature_names s x fnames) = Some names"
    using feature_names_set_feature_names_Some by blast
  have "feature_names (set_feature_names ?t x fnames)
          = feature_names (set_feature_names s x fnames)"
    using fn nm by (cases fnames) (simp_all add: set_feature_names_def)
  with sc show "fst (fit so ?t x y d fnames) = fst (fit so s x y d fnames)"
    by (intro fit_cong) simp_all
qed

theorem fit_deterministic_given_names_witness:
  "same_config (init 5 None ''gini'')
     ((init 5 None ''gini'')\<lparr>depth := 7, feature_names := Some [''feat 0''],
        rules := Some [Leaf (Fin 1) 3]\<rparr>) \<and>
   feature_names (set_feature_names (init 5 None ''gini'') \<lparr>rows = [[0], [1]], shape1 = 1\<rparr> None)
     = feature_names
         (set_feature_names
            ((init 5 None ''gini'')\<lparr>depth := 7, feature_names := Some [''feat 0''],
               rules := Some [Leaf (Fin 1) 3]\<rparr>)
            \<lparr>rows = [[0], [1]], shape1 = 1\<rparr> None) \<and>
   fst (fit remdups
          ((init 5 None ''gini'')\<lparr>depth := 7, feature_names := Some [''feat 0''],
             rules := Some [Leaf (Fin 1) 3]\<rparr>)
          \<lparr>rows = [[0], [1]], shape1 = 1\<rparr> [0, 1] 0 None)
     = Inr [Split ''feat 0'' 0 1 (Fin (1/2)) False (Fin 1) 2 1, Leaf (Fin 0) 1] \<and>
   fst (fit remdups
          (snd (fit remdups (init 5 None ''gini'') \<lparr>rows = [[0], [1]], shape1 = 1\<rparr> [0, 1] 0 None))
          \<lparr>rows = [[0], [1]], shape1 = 1\<rparr> [0, 1] 0 None)
     = Inr [Split ''feat 0'' 0 1 (Fin (1/2)) False (Fin 1) 2 1, Leaf (Fin 0) 1]"
proof -
  let ?s = "init 5 None ''gini''"
  let ?s' = "?s\<lparr>depth := 7, feature_names := Some [''feat 0''], rules := Some [Leaf (Fin 1) 3]\<rparr>"
  let ?x = "\<lparr>rows = [[0], [1]], shape1 = 1\<rparr>"
  let ?r = "Inr [Split ''feat 0'' 0 1 (Fin (1/2)) False (Fin 1) 2 1, Leaf (Fin 0) 1]"
  note d = fit_deterministic_given_names [of ?s ?s' ?x None remdups "[0, 1]" 0]
  have sc: "same_config ?s ?s'" by (simp add: same_config_def)
  have fn: "feature_names (set_feature_names ?s ?x None)
              = feature_names (set_feature_names ?s' ?x None)"
    by (simp add: set_feature_names_def init_def)
  from d sc fn have "fst (fit remdups ?s ?x [0, 1] 0 None) = fst (fit remdups ?s' ?x [0, 1] 0 None)"
    by blast
  then have a: "fst (fit remdups ?s' ?x [0, 1] 0 None) = ?r"
    by (simp only: fit_sep_01)
  from d have "fst (fit remdups (snd (fit remdups ?s ?x [0, 1] 0 None)) ?x [0, 1] 0 None)
                 = fst (fit remdups ?s ?x [0, 1] 0 None)"
    by blast
  then have b: "fst (fit remdups (snd (fit remdups ?s ?x [0, 1] 0 None)) ?x [0, 1] 0 None) = ?r"
    by (simp only: fit_sep_01)
  from sc fn a b show ?thesis by (intro conjI)
qed

end
